theory Spec2Isabelle
  imports Complex_Main
begin

section \<open>Return Calculator\<close>

text \<open>
  The notebook computes the discounted returns of one episode in
  \<^verbatim>\<open>compute_returns_baseline\<close>:
  \<^verbatim>\<open>
    r = 0
    returns = []
    for step in reversed(range(len(rewards))):
        r = rewards[step] + gamma * r
        returns.insert(0, r)
    returns = np.array(returns)
  \<close>
  Rewards and the discount factor are modelled as real numbers (exact arithmetic).
  The loop state is the pair of the running value \<open>r\<close> and the list \<open>returns\<close>;
  \<open>returns.insert(0, r)\<close> is a cons at the front. Every index \<open>step\<close> the loop reads
  lies in \<open>range(len(rewards))\<close>, so \<open>rewards[step]\<close> never raises, and the function
  holds no check and no \<^verbatim>\<open>raise\<close>: the model is a total function.
\<close>

definition returns_step :: "real list \<Rightarrow> real \<Rightarrow> nat \<Rightarrow> real \<times> real list \<Rightarrow> real \<times> real list" where
  "returns_step rewards gamma step acc =
     (let r = rewards ! step + gamma * fst acc in (r, r # snd acc))"

definition discounted_returns :: "real list \<Rightarrow> real \<Rightarrow> real list" where
  "discounted_returns rewards gamma =
     snd (fold (returns_step rewards gamma) (rev [0..<length rewards]) (0, []))"

text \<open>Python's \<^verbatim>\<open>sum(rewards)\<close>: a left fold that starts from 0.\<close>

definition py_sum :: "real list \<Rightarrow> real" where
  "py_sum xs = foldl (+) 0 xs"

text \<open>
  \<^verbatim>\<open>np.mean\<close> and \<^verbatim>\<open>np.std\<close> (the population standard deviation, numpy's default
  \<open>ddof = 0\<close>) of a one-dimensional array. On an empty array numpy yields \<open>nan\<close>; HOL's
  division gives 0 there, and no statement below reads the mean of an empty list.
\<close>

definition np_mean :: "real list \<Rightarrow> real" where
  "np_mean xs = sum_list xs / real (length xs)"

definition np_var :: "real list \<Rightarrow> real" where
  "np_var xs = np_mean (map (\<lambda>x. (x - np_mean xs)\<^sup>2) xs)"

definition np_std :: "real list \<Rightarrow> real" where
  "np_std xs = sqrt (np_var xs)"

text \<open>
  Modelled from the spec: the normalization expression of \<^verbatim>\<open>compute_returns_baseline\<close>,
  which the notebook leaves as an exercise (\<^verbatim>\<open>returns = ...\<close> under the comment
  ``IMPLEMENT-ME: normalize the returns by subtracting the mean and dividing by the
  standard deviation''). The spec (section 4.1) subtracts the mean of the returns and
  divides by their population standard deviation, and where that standard deviation is
  zero it returns the mean-centered, unnormalized values.
\<close>

definition normalize_returns :: "real list \<Rightarrow> real list" where
  "normalize_returns returns =
     (let m = np_mean returns; s = np_std returns
      in if s = 0 then map (\<lambda>g. g - m) returns else map (\<lambda>g. (g - m) / s) returns)"

definition compute_returns_baseline :: "real list \<Rightarrow> real \<Rightarrow> real list" where
  "compute_returns_baseline rewards gamma = normalize_returns (discounted_returns rewards gamma)"

section \<open>Episode Sampler and Trainer\<close>

text \<open>
  The policy network, the categorical distribution, the gym environment, the random
  source and the optimizer are collaborators; in the notebook the calls to them are the
  exercise lines (\<^verbatim>\<open>dist = ...\<close>, \<^verbatim>\<open>action = ...\<close>, \<^verbatim>\<open>log_prob = ...\<close>,
  \<^verbatim>\<open>state, reward, done, _ = ...\<close>, \<^verbatim>\<open>policy_loss = ...\<close>). They are parameters of the
  model, acting on one state \<open>'s\<close> that holds everything they mutate (environment,
  current observation, policy parameters, optimizer and random source):
  \<^item> \<open>seed_init\<close>: seeding, \<^verbatim>\<open>Policy()\<close> and \<^verbatim>\<open>optim.Adam(...)\<close>;
  \<^item> \<open>env_reset\<close>: \<^verbatim>\<open>state = env.reset()\<close>;
  \<^item> \<open>act\<close>: one pass through the four exercise lines of the inner loop, giving the
    log-probability, the reward, the done flag and the new state;
  \<^item> \<open>update\<close>: the loss and \<^verbatim>\<open>zero_grad / backward / step\<close>, from the
    log-probabilities and the returns.
\<close>

record ('s, 'lp) collaborators =
  seed_init :: "int \<Rightarrow> 's"
  env_reset :: "'s \<Rightarrow> 's"
  act :: "'s \<Rightarrow> 'lp \<times> real \<times> bool \<times> 's"
  update :: "'lp list \<Rightarrow> real list \<Rightarrow> 's \<Rightarrow> 's"

text \<open>
  The inner loop of \<^verbatim>\<open>reinforce\<close> and \<^verbatim>\<open>reinforce_baseline\<close>:
  \<^verbatim>\<open>
    for t in range(max_episode_length):
        ...
        rewards.append(reward)
        log_probs.append(log_prob.unsqueeze(0))
        if done:
            break
  \<close>
  The first argument of \<open>collect\<close> after the step function counts the iterations left.
\<close>

fun collect :: "('s \<Rightarrow> 'lp \<times> real \<times> bool \<times> 's) \<Rightarrow> nat \<Rightarrow> 's \<Rightarrow> 'lp list \<Rightarrow> real list
                  \<Rightarrow> 'lp list \<times> real list \<times> 's" where
  "collect step 0 s log_probs rewards = (log_probs, rewards, s)"
| "collect step (Suc k) s log_probs rewards =
     (case step s of (log_prob, reward, done, s') \<Rightarrow>
        let rewards' = rewards @ [reward];
            log_probs' = log_probs @ [log_prob]
        in if done then (log_probs', rewards', s')
           else collect step k s' log_probs' rewards')"

definition sample_episode :: "('s, 'lp) collaborators \<Rightarrow> int \<Rightarrow> 's \<Rightarrow> 'lp list \<times> real list \<times> 's" where
  "sample_episode c max_episode_length s =
     collect (act c) (nat max_episode_length) (env_reset c s) [] []"

text \<open>
  \<^verbatim>\<open>scores_deque = deque(maxlen=100)\<close>: appending to a full deque drops its oldest
  entry.
\<close>

definition deque_append :: "nat \<Rightarrow> 'a list \<Rightarrow> 'a \<Rightarrow> 'a list" where
  "deque_append maxlen dq x = (if maxlen \<le> length dq then tl (dq @ [x]) else dq @ [x])"

text \<open>
  The episode loop, shared by \<^verbatim>\<open>reinforce\<close> and \<^verbatim>\<open>reinforce_baseline\<close>:
  \<^verbatim>\<open>
    for episode in range(1, number_episodes+1):
        (inner loop)
        scores.append(sum(rewards))
        scores_deque.append(sum(rewards))
        (returns, loss, optimizer step)
        if episode % 50 == 0 and verbose:
            print(...)
        if np.mean(scores_deque) >= 495.0 and verbose:
            print(...)
            break
    return policy, scores
  \<close>
  \<open>learn\<close> stands for the second and third block of the loop body; printing is not
  modelled. The result is the final state (it holds the policy) and \<open>scores\<close>.
\<close>

fun episodes_loop :: "('s, 'lp) collaborators \<Rightarrow> ('lp list \<Rightarrow> real list \<Rightarrow> 's \<Rightarrow> 's) \<Rightarrow> int \<Rightarrow> bool
                        \<Rightarrow> nat \<Rightarrow> 's \<Rightarrow> real list \<Rightarrow> real list \<Rightarrow> 's \<times> real list" where
  "episodes_loop c learn max_episode_length verbose 0 s scores scores_deque = (s, scores)"
| "episodes_loop c learn max_episode_length verbose (Suc k) s scores scores_deque =
     (case sample_episode c max_episode_length s of (log_probs, rewards, s1) \<Rightarrow>
        let scores' = scores @ [py_sum rewards];
            scores_deque' = deque_append 100 scores_deque (py_sum rewards);
            s2 = learn log_probs rewards s1
        in if 495 \<le> np_mean scores_deque' \<and> verbose then (s2, scores')
           else episodes_loop c learn max_episode_length verbose k s2 scores' scores_deque')"

text \<open>
  \<^verbatim>\<open>reinforce\<close> leaves the computation of the returns to the exercise
  (\<^verbatim>\<open>returns = ...\<close>), so its \<open>update\<close> receives the rewards; \<^verbatim>\<open>reinforce_baseline\<close>
  calls \<^verbatim>\<open>compute_returns_baseline(rewards, gamma)\<close>. The hyperparameters
  \<^verbatim>\<open>number_episodes\<close>, \<^verbatim>\<open>max_episode_length\<close> and \<^verbatim>\<open>gamma\<close> are module-level
  variables of the notebook (1500, 1000 and 1.0 there) and arguments here.
\<close>

definition reinforce :: "('s, 'lp) collaborators \<Rightarrow> int \<Rightarrow> int \<Rightarrow> real \<Rightarrow> int \<Rightarrow> bool \<Rightarrow> 's \<times> real list" where
  "reinforce c number_episodes max_episode_length gamma seed verbose =
     episodes_loop c (update c) max_episode_length verbose
       (nat number_episodes) (seed_init c seed) [] []"

definition reinforce_baseline :: "('s, 'lp) collaborators \<Rightarrow> int \<Rightarrow> int \<Rightarrow> real \<Rightarrow> int \<Rightarrow> bool \<Rightarrow> 's \<times> real list" where
  "reinforce_baseline c number_episodes max_episode_length gamma seed verbose =
     episodes_loop c (\<lambda>log_probs rewards. update c log_probs (compute_returns_baseline rewards gamma))
       max_episode_length verbose (nat number_episodes) (seed_init c seed) [] []"

section \<open>Experiment Runner\<close>

text \<open>
  \<^verbatim>\<open>
    all_scores = []
    for seed in seeds:
        _, scores = reinforce(int(seed), verbose=False)
        all_scores.append(scores)
  \<close>
\<close>

definition all_scores :: "('s, 'lp) collaborators \<Rightarrow> int \<Rightarrow> int \<Rightarrow> real \<Rightarrow> int list \<Rightarrow> real list list" where
  "all_scores c number_episodes max_episode_length gamma seeds =
     map (\<lambda>seed. snd (reinforce c number_episodes max_episode_length gamma seed False)) seeds"

text \<open>
  \<^verbatim>\<open>
    def moving_average(a, n) :
        ret = np.cumsum(a, dtype=float)
        ret[n:] = ret[n:] - ret[:-n]
        return ret / n
  \<close>
  \<open>n\<close> is a Python integer. A slice bound \<open>i\<close> on an array of length \<open>len\<close> is clamped
  as Python does: a negative bound counts from the end. numpy subtracts two
  one-dimensional arrays of equal length elementwise, broadcasts one of length 1
  against the other, and raises \<^verbatim>\<open>ValueError\<close> otherwise; a slice assignment takes
  a value of the slice's length or of length 1, and raises \<^verbatim>\<open>ValueError\<close> otherwise.
\<close>

datatype error = ValueError

fun cumsum_from :: "real \<Rightarrow> real list \<Rightarrow> real list" where
  "cumsum_from acc [] = []"
| "cumsum_from acc (x # xs) = (acc + x) # cumsum_from (acc + x) xs"

definition cumsum :: "real list \<Rightarrow> real list" where
  "cumsum a = cumsum_from 0 a"

definition slice_bound :: "nat \<Rightarrow> int \<Rightarrow> nat" where
  "slice_bound len i = (if i < 0 then nat (max 0 (int len + i)) else min (nat i) len)"

definition np_subtract :: "real list \<Rightarrow> real list \<Rightarrow> error + real list" where
  "np_subtract xs ys =
     (if length xs = length ys then Inr (map2 (-) xs ys)
      else if length ys = 1 then Inr (map (\<lambda>x. x - ys ! 0) xs)
      else if length xs = 1 then Inr (map (\<lambda>y. xs ! 0 - y) ys)
      else Inl ValueError)"

definition set_slice_from :: "real list \<Rightarrow> nat \<Rightarrow> real list \<Rightarrow> error + real list" where
  "set_slice_from ret i v =
     (if length v = length ret - i then Inr (take i ret @ v)
      else if length v = 1 then Inr (take i ret @ replicate (length ret - i) (v ! 0))
      else Inl ValueError)"

definition moving_average :: "real list \<Rightarrow> int \<Rightarrow> error + real list" where
  "moving_average a n =
     (let ret = cumsum a;
          i = slice_bound (length ret) n;
          j = slice_bound (length ret) (- n)
      in case np_subtract (drop i ret) (take j ret) of
           Inl e \<Rightarrow> Inl e
         | Inr d \<Rightarrow>
             (case set_slice_from ret i d of
                Inl e \<Rightarrow> Inl e
              | Inr ret' \<Rightarrow> Inr (map (\<lambda>x. x / real_of_int n) ret')))"

section \<open>Notions used to state the properties\<close>

text \<open>
  The interaction an episode would see if it were never cut short: \<open>world_at step s i\<close>
  is the state after \<open>i\<close> steps from \<open>s\<close>, and \<open>outcome step s i\<close> what step \<open>i\<close>
  (counted from 0) yields there.
\<close>

definition world_at :: "('s \<Rightarrow> 'lp \<times> real \<times> bool \<times> 's) \<Rightarrow> 's \<Rightarrow> nat \<Rightarrow> 's" where
  "world_at step s i = ((\<lambda>w. snd (snd (snd (step w)))) ^^ i) s"

definition outcome :: "('s \<Rightarrow> 'lp \<times> real \<times> bool \<times> 's) \<Rightarrow> 's \<Rightarrow> nat \<Rightarrow> 'lp \<times> real \<times> bool" where
  "outcome step s i = (case step (world_at step s i) of (lp, r, d, w) \<Rightarrow> (lp, r, d))"

definition step_done :: "('s \<Rightarrow> 'lp \<times> real \<times> bool \<times> 's) \<Rightarrow> 's \<Rightarrow> nat \<Rightarrow> bool" where
  "step_done step s i = snd (snd (outcome step s i))"

text \<open>
  The rolling average after a prefix of the score history: the mean of its most recent
  entries, at most 100 of them.
\<close>

definition rolling_average :: "real list \<Rightarrow> real" where
  "rolling_average scores = np_mean (drop (length scores - 100) scores)"

text \<open>
  Two stub collaborators for concrete runs. \<open>ten_step_stub\<close> is the stub of the
  spec's scenario: its state counts the steps of the episode, every step pays reward 1,
  and \<open>done\<close> comes with the tenth step. In \<open>solved_stub\<close> every episode is a single
  step that pays 500 and is done. Neither learns anything.
\<close>

definition ten_step_stub :: "(nat, unit) collaborators" where
  "ten_step_stub =
     \<lparr>seed_init = (\<lambda>seed. 0), env_reset = (\<lambda>w. 0),
      act = (\<lambda>w. ((), 1, 10 \<le> Suc w, Suc w)), update = (\<lambda>log_probs returns w. w)\<rparr>"

definition solved_stub :: "(unit, unit) collaborators" where
  "solved_stub =
     \<lparr>seed_init = (\<lambda>seed. ()), env_reset = (\<lambda>w. w),
      act = (\<lambda>w. ((), 500, True, w)), update = (\<lambda>log_probs returns w. w)\<rparr>"

text \<open>The backward loop of the Return Calculator as a recursion on the reward list.\<close>

fun head_or_zero :: "real list \<Rightarrow> real" where
  "head_or_zero [] = 0"
| "head_or_zero (g # gs) = g"

fun returns_rec :: "real list \<Rightarrow> real \<Rightarrow> real list" where
  "returns_rec [] gamma = []"
| "returns_rec (x # xs) gamma =
     (x + gamma * head_or_zero (returns_rec xs gamma)) # returns_rec xs gamma"

section \<open>Properties of the Return Calculator\<close>

lemma returns_loop_suffix:
  "k \<le> length rewards \<Longrightarrow>
     fold (returns_step rewards gamma) (rev [k..<length rewards]) (0, []) =
       (head_or_zero (returns_rec (drop k rewards) gamma), returns_rec (drop k rewards) gamma)"
proof (induction "length rewards - k" arbitrary: k)
  case 0
  then show ?case by simp
next
  case (Suc d)
  then have lt: "k < length rewards" by simp
  have d: "d = length rewards - Suc k" using Suc.hyps(2) by simp
  have ih: "fold (returns_step rewards gamma) (rev [Suc k..<length rewards]) (0, []) =
       (head_or_zero (returns_rec (drop (Suc k) rewards) gamma),
        returns_rec (drop (Suc k) rewards) gamma)"
    using Suc.hyps(1) [OF d] lt by simp
  have split_range: "rev [k..<length rewards] = rev [Suc k..<length rewards] @ [k]"
    using lt by (simp add: upt_conv_Cons)
  have split_drop: "drop k rewards = rewards ! k # drop (Suc k) rewards"
    using lt by (simp add: Cons_nth_drop_Suc)
  show ?case
    by (simp add: split_range split_drop ih returns_step_def Let_def)
qed

lemma discounted_returns_rec: "discounted_returns rewards gamma = returns_rec rewards gamma"
  using returns_loop_suffix [of 0 rewards gamma] by (simp add: discounted_returns_def)

lemma returns_rec_length: "length (returns_rec xs gamma) = length xs"
  by (induction xs) simp_all

lemma head_or_zero_nth: "head_or_zero gs = (if gs = [] then 0 else gs ! 0)"
  by (cases gs) simp_all

lemma returns_rec_nth:
  "t < length xs \<Longrightarrow>
     returns_rec xs gamma ! t =
       xs ! t + gamma * (if Suc t < length xs then returns_rec xs gamma ! Suc t else 0)"
proof (induction xs arbitrary: t)
  case Nil
  then show ?case by simp
next
  case (Cons x xs)
  show ?case
  proof (cases t)
    case 0
    then show ?thesis
      by (cases xs) simp_all
  next
    case (Suc u)
    with Cons show ?thesis by simp
  qed
qed

lemma returns_rec_head_sum: "head_or_zero (returns_rec xs 1) = sum_list xs"
  by (induction xs) simp_all

lemma py_sum_sum_list: "py_sum xs = sum_list xs"
proof -
  have "foldl (+) a xs = a + sum_list xs" for a :: real
    by (induction xs arbitrary: a) simp_all
  then show ?thesis by (simp add: py_sum_def)
qed

text \<open>
  C1. For every non-empty reward sequence and every discount factor, the returns built
  by the backward loop of \<^verbatim>\<open>compute_returns_baseline\<close> (before normalization) are as
  many as the rewards, satisfy \<open>G t = r t + gamma * G (t + 1)\<close> at every index before
  the last, and the last return is the last reward.
\<close>

theorem discounted_returns_recurrence:
  assumes "rewards \<noteq> []"
  shows "length (discounted_returns rewards gamma) = length rewards
         \<and> (\<forall>t. Suc t < length rewards \<longrightarrow>
            discounted_returns rewards gamma ! t =
              rewards ! t + gamma * discounted_returns rewards gamma ! Suc t)
         \<and> discounted_returns rewards gamma ! (length rewards - 1) =
              rewards ! (length rewards - 1)"
proof -
  have last: "length rewards - 1 < length rewards" using assms by (cases rewards) simp_all
  show ?thesis
    using returns_rec_nth [OF last, of gamma] assms
    by (simp add: discounted_returns_rec returns_rec_nth returns_rec_length)
qed

theorem discounted_returns_recurrence_witness:
  "[1, 1, 1] \<noteq> ([] :: real list)
   \<and> discounted_returns [1, 1, 1] (1 / 2) = [7 / 4, 3 / 2, 1]
   \<and> discounted_returns [1, 1, 1] (1 / 2) ! 0 =
        [1, 1, 1] ! 0 + (1 / 2) * discounted_returns [1, 1, 1] (1 / 2) ! Suc 0
   \<and> discounted_returns [1, 1, 1] (1 / 2) ! (length [1, 1, 1 :: real] - 1) =
        [1, 1, 1] ! (length [1, 1, 1 :: real] - 1)"
proof -
  have ne: "[1, 1, 1] \<noteq> ([] :: real list)" by simp
  have ev: "discounted_returns [1, 1, 1] (1 / 2) = [7 / 4, 3 / 2, 1]"
    by (simp add: discounted_returns_def returns_step_def upt_conv_Cons Let_def)
  show ?thesis
    using discounted_returns_recurrence [OF ne, of "1 / 2"] ne ev by simp
qed

subsection \<open>Normalization\<close>

lemma discounted_returns_length: "length (discounted_returns rewards gamma) = length rewards"
  by (simp add: discounted_returns_rec returns_rec_length)

lemma normalize_returns_length: "length (normalize_returns gs) = length gs"
  by (simp add: normalize_returns_def Let_def)

lemma sum_list_shift_scale:
  "sum_list (map (\<lambda>x. (x - m) / s) xs) = (sum_list xs - real (length xs) * m) / (s :: real)"
  by (induction xs) (simp_all add: algebra_simps add_divide_distrib diff_divide_distrib)

lemma sum_list_divide_const:
  "sum_list (map (\<lambda>x. f x / c) xs) = sum_list (map f xs) / (c :: real)"
  by (induction xs) (simp_all add: add_divide_distrib)

lemma np_var_nonneg: "0 \<le> np_var xs"
proof -
  have "0 \<le> sum_list (map (\<lambda>x. (x - np_mean xs)\<^sup>2) xs)"
    by (rule sum_list_nonneg) auto
  then show ?thesis by (simp add: np_var_def np_mean_def)
qed

lemma np_std_square: "(np_std xs)\<^sup>2 = np_var xs"
  by (simp add: np_std_def np_var_nonneg)

lemma scaled_mean_zero:
  assumes "xs \<noteq> []"
  shows "np_mean (map (\<lambda>x. (x - np_mean xs) / s) xs) = 0"
proof -
  have "real (length xs) \<noteq> 0" using assms by simp
  then have "sum_list xs - real (length xs) * np_mean xs = 0"
    by (simp add: np_mean_def)
  then show ?thesis
    by (simp add: np_mean_def sum_list_shift_scale)
qed

lemma scaled_var_one:
  assumes "xs \<noteq> []" and "np_std xs \<noteq> 0"
  shows "np_var (map (\<lambda>x. (x - np_mean xs) / np_std xs) xs) = 1"
proof -
  let ?m = "np_mean xs" and ?s = "np_std xs"
  have "np_var (map (\<lambda>x. (x - ?m) / ?s) xs)
          = np_mean (map (\<lambda>x. ((x - ?m) / ?s)\<^sup>2) xs)"
    by (simp add: np_var_def scaled_mean_zero [OF assms(1)] comp_def)
  also have "\<dots> = np_mean (map (\<lambda>x. (x - ?m)\<^sup>2 / ?s\<^sup>2) xs)"
    by (simp add: power_divide)
  also have "\<dots> = np_var xs / ?s\<^sup>2"
    by (simp add: np_mean_def np_var_def sum_list_divide_const)
  also have "\<dots> = 1"
    using assms(2) by (simp add: np_std_square [symmetric])
  finally show ?thesis .
qed

text \<open>
  C7. For a non-empty reward sequence whose returns have a nonzero population standard
  deviation, the normalized returns have mean 0 and population variance 1 (in exact
  arithmetic).
\<close>

theorem normalized_returns_standard:
  assumes "rewards \<noteq> []"
    and "np_std (discounted_returns rewards gamma) \<noteq> 0"
  shows "np_mean (compute_returns_baseline rewards gamma) = 0
         \<and> np_var (compute_returns_baseline rewards gamma) = 1"
proof -
  have ne: "discounted_returns rewards gamma \<noteq> []"
    using assms(1) discounted_returns_length [of rewards gamma] by auto
  show ?thesis
    using assms(2) scaled_mean_zero [OF ne] scaled_var_one [OF ne assms(2)]
    by (simp add: compute_returns_baseline_def normalize_returns_def Let_def)
qed

theorem normalized_returns_standard_witness:
  "[1, 3] \<noteq> ([] :: real list)
   \<and> np_std (discounted_returns [1, 3] 1) \<noteq> 0
   \<and> np_mean (compute_returns_baseline [1, 3] 1) = 0
   \<and> np_var (compute_returns_baseline [1, 3] 1) = 1"
proof -
  have ne: "[1, 3] \<noteq> ([] :: real list)" by simp
  have ev: "discounted_returns [1, 3] 1 = [4, 3]"
    by (simp add: discounted_returns_def returns_step_def upt_conv_Cons Let_def)
  have sd: "np_std (discounted_returns [1, 3] 1) \<noteq> 0"
    by (simp add: ev np_std_def np_var_def np_mean_def power2_eq_square)
  show ?thesis
    using normalized_returns_standard [OF ne sd] ne sd by simp
qed

text \<open>
  C3. Where the population standard deviation of the returns is zero, the normalized
  Return Calculator yields the mean-centered, unnormalized returns. A single reward
  (\<open>T = 0\<close>) is such a case, and so are the rewards \<open>[0, 0, 0, 0]\<close> with discount
  factor 1, where the result is \<open>[0, 0, 0, 0]\<close>. (A constant reward sequence need not
  be one: the rewards \<open>[1, 1]\<close> with discount factor 1 have the returns \<open>[2, 1]\<close>.)
\<close>

theorem zero_std_guard:
  "(np_std (discounted_returns rewards gamma) = 0 \<longrightarrow>
      compute_returns_baseline rewards gamma =
        map (\<lambda>g. g - np_mean (discounted_returns rewards gamma)) (discounted_returns rewards gamma))
   \<and> np_std (discounted_returns [r] gamma) = 0
   \<and> compute_returns_baseline [0, 0, 0, 0] 1 = [0, 0, 0, 0]"
proof -
  have single: "discounted_returns [r] gamma = [r]"
    by (simp add: discounted_returns_rec)
  have zeros: "discounted_returns [0, 0, 0, 0] 1 = [0, 0, 0, 0]"
    by (simp add: discounted_returns_rec)
  have "np_std [r] = 0"
    by (simp add: np_std_def np_var_def np_mean_def)
  moreover have "compute_returns_baseline [0, 0, 0, 0] 1 = [0, 0, 0, 0]"
    by (simp add: compute_returns_baseline_def zeros normalize_returns_def np_std_def
        np_var_def np_mean_def)
  ultimately show ?thesis
    by (simp add: single compute_returns_baseline_def normalize_returns_def Let_def)
qed

theorem zero_std_guard_witness:
  "np_std (discounted_returns [5] (1 / 2)) = 0 \<and> compute_returns_baseline [5] (1 / 2) = [0]"
proof -
  have ev: "discounted_returns [5] (1 / 2) = [5]"
    by (simp add: discounted_returns_def returns_step_def Let_def)
  have m: "np_mean [5] = 5"
    by (simp add: np_mean_def)
  show ?thesis
    using zero_std_guard [of "[5]" "1 / 2" 5] by (simp add: ev m)
qed

text \<open>
  C5 (as claimed). The empty reward sequence is not refused. Nothing in
  \<^verbatim>\<open>compute_returns_baseline\<close> checks its input: on \<open>[]\<close> the loop has no index to
  visit, and the function reaches its normalization line with the empty return
  sequence, where a validation error would have stopped it before any work.
\<close>

theorem empty_rewards_returned:
  "rev [0..<length ([] :: real list)] = [] \<and> discounted_returns [] 1 = []"
  by (simp add: discounted_returns_def)

text \<open>
  C5 (as the code has it). \<^verbatim>\<open>compute_returns_baseline\<close> validates nothing and raises
  nothing: for every discount factor, on the empty reward sequence the backward loop
  runs zero times, leaving its state \<open>r = 0\<close>, \<open>returns = []\<close> as initialized, and the
  return sequence before normalization is empty.
\<close>

theorem empty_rewards_no_error:
  "fold (returns_step [] gamma) (rev [0..<length ([] :: real list)]) (0, []) = (0, [])
   \<and> discounted_returns [] gamma = []"
  by (simp add: discounted_returns_def)

section \<open>Properties of the Episode Sampler\<close>

lemma world_at_Suc: "world_at step s (Suc i) = world_at step (snd (snd (snd (step s)))) i"
  unfolding world_at_def funpow_Suc_right by simp

lemma outcome_Suc: "outcome step s (Suc i) = outcome step (snd (snd (snd (step s)))) i"
  by (simp add: outcome_def world_at_Suc)

lemma outcome_0: "step s = (lp, r, d, w) \<Longrightarrow> outcome step s 0 = (lp, r, d)"
  by (simp add: outcome_def world_at_def)

lemma step_done_Suc: "step_done step s (Suc i) = step_done step (snd (snd (snd (step s)))) i"
  by (simp add: step_done_def outcome_Suc)

lemma collect_trace:
  "collect step k s lps0 rs0 = (lps, rs, s') \<Longrightarrow>
     \<exists>m\<le>k. lps = lps0 @ map (\<lambda>i. fst (outcome step s i)) [0..<m]
          \<and> rs = rs0 @ map (\<lambda>i. fst (snd (outcome step s i))) [0..<m]
          \<and> (\<forall>i. Suc i < m \<longrightarrow> \<not> step_done step s i)
          \<and> (m < k \<longrightarrow> 0 < m \<and> step_done step s (m - 1))"
proof (induction k arbitrary: s lps0 rs0)
  case 0
  then show ?case by simp
next
  case (Suc k)
  obtain lp r d w where st: "step s = (lp, r, d, w)"
    by (cases "step s") auto
  have o0: "outcome step s 0 = (lp, r, d)"
    by (simp add: outcome_def world_at_def st)
  have shift: "outcome step s (Suc i) = outcome step w i" for i
    by (simp add: outcome_Suc st)
  show ?case
  proof (cases d)
    case True
    with Suc.prems st have res: "lps = lps0 @ [lp]" "rs = rs0 @ [r]"
      by (simp_all add: Let_def)
    have "lps = lps0 @ map (\<lambda>i. fst (outcome step s i)) [0..<1]
          \<and> rs = rs0 @ map (\<lambda>i. fst (snd (outcome step s i))) [0..<1]
          \<and> (\<forall>i. Suc i < 1 \<longrightarrow> \<not> step_done step s i)
          \<and> (1 < Suc k \<longrightarrow> 0 < (1::nat) \<and> step_done step s (1 - 1))"
      using res True by (simp add: o0 step_done_def)
    moreover have "(1::nat) \<le> Suc k" by simp
    ultimately show ?thesis by blast
  next
    case False
    with Suc.prems st have "collect step k w (lps0 @ [lp]) (rs0 @ [r]) = (lps, rs, s')"
      by (simp add: Let_def)
    from Suc.IH [OF this] obtain m where m: "m \<le> k"
      and l: "lps = (lps0 @ [lp]) @ map (\<lambda>i. fst (outcome step w i)) [0..<m]"
      and r: "rs = (rs0 @ [r]) @ map (\<lambda>i. fst (snd (outcome step w i))) [0..<m]"
      and nd: "\<forall>i. Suc i < m \<longrightarrow> \<not> step_done step w i"
      and fin: "m < k \<longrightarrow> 0 < m \<and> step_done step w (m - 1)"
      by blast
    have l': "lps = lps0 @ map (\<lambda>i. fst (outcome step s i)) [0..<Suc m]"
      unfolding l map_upt_Suc by (simp add: o0 shift)
    have r': "rs = rs0 @ map (\<lambda>i. fst (snd (outcome step s i))) [0..<Suc m]"
      unfolding r map_upt_Suc by (simp add: o0 shift)
    have nd': "\<forall>i. Suc i < Suc m \<longrightarrow> \<not> step_done step s i"
    proof (intro allI impI)
      fix i assume i: "Suc i < Suc m"
      show "\<not> step_done step s i"
      proof (cases i)
        case 0
        then show ?thesis using False by (simp add: step_done_def o0)
      next
        case (Suc j)
        then show ?thesis using nd i by (simp add: step_done_Suc st)
      qed
    qed
    have fin': "Suc m < Suc k \<longrightarrow> 0 < Suc m \<and> step_done step s (Suc m - 1)"
    proof
      assume "Suc m < Suc k"
      then have "0 < m" and "step_done step w (m - 1)" using fin by simp_all
      then show "0 < Suc m \<and> step_done step s (Suc m - 1)"
        by (cases m) (simp_all add: step_done_Suc st)
    qed
    from m l' r' nd' fin' show ?thesis
      by (intro exI [of _ "Suc m"]) simp
  qed
qed

lemma sample_episode_trace:
  assumes "sample_episode c max_episode_length s = (log_probs, rewards, s')"
  shows "\<exists>m\<le>nat max_episode_length.
           log_probs = map (\<lambda>i. fst (outcome (act c) (env_reset c s) i)) [0..<m]
         \<and> rewards = map (\<lambda>i. fst (snd (outcome (act c) (env_reset c s) i))) [0..<m]
         \<and> (\<forall>i. Suc i < m \<longrightarrow> \<not> step_done (act c) (env_reset c s) i)
         \<and> (m < nat max_episode_length \<longrightarrow> 0 < m \<and> step_done (act c) (env_reset c s) (m - 1))"
  using collect_trace [OF assms [unfolded sample_episode_def]] by simp

lemma sample_episode_lengths:
  assumes "sample_episode c max_episode_length s = (log_probs, rewards, s')"
  shows "length log_probs = length rewards"
  using sample_episode_trace [OF assms] by auto

text \<open>
  C4. The trace of an episode has at most \<open>max_episode_length\<close> entries, one
  log-probability per reward; its entries are the outcomes of the first steps of the
  interaction in order; no step before the last recorded one was done, so nothing is
  recorded after the first done; and a trace shorter than the cap ends with a done step.
\<close>

theorem episode_trace_bounded:
  assumes "sample_episode c max_episode_length s = (log_probs, rewards, s')"
  shows "length rewards \<le> nat max_episode_length
         \<and> length log_probs = length rewards
         \<and> log_probs = map (\<lambda>i. fst (outcome (act c) (env_reset c s) i)) [0..<length rewards]
         \<and> rewards = map (\<lambda>i. fst (snd (outcome (act c) (env_reset c s) i))) [0..<length rewards]
         \<and> (\<forall>i. Suc i < length rewards \<longrightarrow> \<not> step_done (act c) (env_reset c s) i)
         \<and> (length rewards < nat max_episode_length \<longrightarrow>
               0 < length rewards \<and> step_done (act c) (env_reset c s) (length rewards - 1))"
proof -
  from sample_episode_trace [OF assms] obtain m where m: "m \<le> nat max_episode_length"
    and l: "log_probs = map (\<lambda>i. fst (outcome (act c) (env_reset c s) i)) [0..<m]"
    and r: "rewards = map (\<lambda>i. fst (snd (outcome (act c) (env_reset c s) i))) [0..<m]"
    and nd: "\<forall>i. Suc i < m \<longrightarrow> \<not> step_done (act c) (env_reset c s) i"
    and fin: "m < nat max_episode_length \<longrightarrow> 0 < m \<and> step_done (act c) (env_reset c s) (m - 1)"
    by blast
  have len: "length rewards = m" using r by simp
  show ?thesis
    unfolding len using m l r nd fin by simp
qed

lemma ten_step_episode:
  "sample_episode ten_step_stub 1000 s = (replicate 10 (), replicate 10 1, 10)"
  by (simp add: sample_episode_def ten_step_stub_def eval_nat_numeral Let_def)

theorem episode_trace_bounded_witness:
  "sample_episode ten_step_stub 1000 0 = (replicate 10 (), replicate 10 1, 10)
   \<and> length (replicate 10 (1::real)) \<le> nat 1000
   \<and> \<not> step_done (act ten_step_stub) (env_reset ten_step_stub 0) 8
   \<and> step_done (act ten_step_stub) (env_reset ten_step_stub 0) (length (replicate 10 (1::real)) - 1)"
proof -
  have run: "sample_episode ten_step_stub 1000 0 = (replicate 10 (), replicate 10 1, 10)"
    by (rule ten_step_episode)
  show ?thesis
    using episode_trace_bounded [OF run] run by simp
qed

text \<open>
  C8. The Return Sequence has one entry per entry of the Episode Trace:
  \<^verbatim>\<open>compute_returns_baseline\<close> applied to the rewards of a sampled episode gives as
  many returns as there are rewards, and as many as there are log-probabilities.
\<close>

theorem returns_match_trace:
  assumes "sample_episode c max_episode_length s = (log_probs, rewards, s')"
  shows "length (discounted_returns rewards gamma) = length rewards
         \<and> length (compute_returns_baseline rewards gamma) = length rewards
         \<and> length (compute_returns_baseline rewards gamma) = length log_probs"
  using sample_episode_lengths [OF assms]
  by (simp add: compute_returns_baseline_def normalize_returns_length discounted_returns_length)

theorem returns_match_trace_witness:
  "sample_episode ten_step_stub 1000 0 = (replicate 10 (), replicate 10 1, 10)
   \<and> length (compute_returns_baseline (replicate 10 1) 1) = 10
   \<and> length (compute_returns_baseline (replicate 10 1) 1) = length (replicate 10 ())"
proof -
  have run: "sample_episode ten_step_stub 1000 0 = (replicate 10 (), replicate 10 1, 10)"
    by (rule ten_step_episode)
  show ?thesis
    using returns_match_trace [OF run, of 1] run by simp
qed

section \<open>Properties of the Trainer and the Experiment Runner\<close>

lemma deque_append_recent:
  assumes "dq = drop (length scores - 100) scores"
  shows "deque_append 100 dq x = drop (length (scores @ [x]) - 100) (scores @ [x])"
proof (cases "length scores < 100")
  case True
  then show ?thesis using assms by (simp add: deque_append_def)
next
  case False
  then have full: "length dq = 100" and ne: "dq \<noteq> []" using assms by auto
  have "tl (dq @ [x]) = tl dq @ [x]" using ne by simp
  also have "tl dq = drop (Suc (length scores - 100)) scores"
    using assms by (simp add: drop_Suc drop_tl)
  finally have "tl (dq @ [x]) = drop (Suc (length scores - 100)) scores @ [x]" .
  moreover have "Suc (length scores - 100) = length scores - 99"
    using False by arith
  ultimately show ?thesis
    using full by (simp add: deque_append_def)
qed

lemma rolling_average_deque:
  assumes "dq = drop (length scores - 100) scores"
  shows "np_mean (deque_append 100 dq x) = rolling_average (scores @ [x])"
  by (simp only: rolling_average_def deque_append_recent [OF assms])

lemma episodes_loop_scores:
  assumes "episodes_loop c learn max_episode_length verbose k s scores0 dq = (s', scores)"
    and "dq = drop (length scores0 - 100) scores0"
  shows "\<exists>ext. scores = scores0 @ ext \<and> length ext \<le> k
           \<and> (\<not> verbose \<longrightarrow> length ext = k)
           \<and> (\<forall>j. length scores0 \<le> j \<and> j < length scores
                    \<and> 495 \<le> rolling_average (take (Suc j) scores) \<and> verbose
                  \<longrightarrow> Suc j = length scores)"
  using assms
proof (induction k arbitrary: s scores0 dq)
  case 0
  then show ?case by simp
next
  case (Suc k)
  obtain lps rs s1 where ep: "sample_episode c max_episode_length s = (lps, rs, s1)"
    by (cases "sample_episode c max_episode_length s") auto
  let ?x = "py_sum rs"
  let ?sc = "scores0 @ [?x]"
  let ?dq = "deque_append 100 dq ?x"
  have inv: "?dq = drop (length ?sc - 100) ?sc"
    by (rule deque_append_recent [OF Suc.prems(2)])
  have avg: "np_mean ?dq = rolling_average ?sc"
    by (rule rolling_average_deque [OF Suc.prems(2)])
  show ?case
  proof (cases "495 \<le> np_mean ?dq \<and> verbose")
    case True
    with Suc.prems(1) ep have "scores = ?sc"
      by (simp add: Let_def)
    then show ?thesis using True by auto
  next
    case False
    with Suc.prems(1) ep have
      "episodes_loop c learn max_episode_length verbose k (learn lps rs s1) ?sc ?dq = (s', scores)"
      by (simp add: Let_def)
    from Suc.IH [OF this inv] obtain ext where e: "scores = ?sc @ ext" "length ext \<le> k"
      "\<not> verbose \<longrightarrow> length ext = k"
      and stop: "\<forall>j. length ?sc \<le> j \<and> j < length scores
                    \<and> 495 \<le> rolling_average (take (Suc j) scores) \<and> verbose
                  \<longrightarrow> Suc j = length scores"
      by blast
    have first: "take (Suc (length scores0)) scores = ?sc"
      using e(1) by simp
    have "\<forall>j. length scores0 \<le> j \<and> j < length scores
                    \<and> 495 \<le> rolling_average (take (Suc j) scores) \<and> verbose
                  \<longrightarrow> Suc j = length scores"
    proof (intro allI impI)
      fix j
      assume j: "length scores0 \<le> j \<and> j < length scores
                    \<and> 495 \<le> rolling_average (take (Suc j) scores) \<and> verbose"
      show "Suc j = length scores"
      proof (cases "j = length scores0")
        case True
        with j first avg False show ?thesis by simp
      next
        case False
        with j have "length ?sc \<le> j" by simp
        with j stop show ?thesis by blast
      qed
    qed
    with e show ?thesis
      by (intro exI [of _ "?x # ext"]) simp
  qed
qed

lemma reinforce_scores:
  assumes "reinforce c number_episodes max_episode_length gamma seed verbose = (s', scores)"
  shows "length scores \<le> nat number_episodes
         \<and> (\<not> verbose \<longrightarrow> length scores = nat number_episodes)
         \<and> (\<forall>j. j < length scores \<and> 495 \<le> rolling_average (take (Suc j) scores) \<and> verbose
                \<longrightarrow> Suc j = length scores)"
  using episodes_loop_scores [OF assms [unfolded reinforce_def]] by auto

lemma reinforce_quiet_length:
  "length (snd (reinforce c number_episodes max_episode_length gamma seed False)) = nat number_episodes"
  using reinforce_scores [of c number_episodes max_episode_length gamma seed False]
  by (cases "reinforce c number_episodes max_episode_length gamma seed False") auto

lemma solved_stub_episode: "sample_episode solved_stub 1000 s = ([()], [500], ())"
  by (simp add: sample_episode_def solved_stub_def eval_nat_numeral Let_def)

lemma solved_stub_verbose: "snd (reinforce solved_stub 2 1000 1 0 True) = [500]"
  by (simp add: reinforce_def eval_nat_numeral solved_stub_episode Let_def py_sum_def
      deque_append_def np_mean_def)

text \<open>
  C2 (as claimed). With \<open>verbose = False\<close>, the way the Experiment Runner launches its
  runs, the Trainer does not stop at the threshold: against \<open>solved_stub\<close> and with two
  episodes allowed, the rolling average after the first episode is 500, and the second
  episode runs all the same.
\<close>

theorem quiet_run_does_not_stop:
  "snd (reinforce solved_stub 2 1000 1 0 False) = [500, 500]
   \<and> 495 \<le> rolling_average (take 1 (snd (reinforce solved_stub 2 1000 1 0 False)))
   \<and> all_scores solved_stub 2 1000 1 [7, 8] = [[500, 500], [500, 500]]"
proof -
  have "snd (reinforce solved_stub 2 1000 1 seed False) = [500, 500]" for seed
    by (simp add: reinforce_def eval_nat_numeral solved_stub_episode Let_def py_sum_def
        deque_append_def)
  then show ?thesis
    by (simp add: all_scores_def rolling_average_def np_mean_def)
qed

text \<open>
  C2 (as the code has it). The break of the episode loop is guarded by
  \<^verbatim>\<open>np.mean(scores_deque) >= 495.0 and verbose\<close>. A verbose run stops with the first
  episode whose rolling average (over the most recent scores, at most 100) reaches 495:
  such an episode is the last one of the score history. A run with \<open>verbose = False\<close>
  runs all \<open>number_episodes\<close> episodes, so the score sequences the Experiment Runner
  collects all have that length.
\<close>

theorem solved_stop_only_when_verbose:
  "(\<forall>j. j < length (snd (reinforce c number_episodes max_episode_length gamma seed True))
         \<and> 495 \<le> rolling_average
               (take (Suc j) (snd (reinforce c number_episodes max_episode_length gamma seed True)))
       \<longrightarrow> Suc j = length (snd (reinforce c number_episodes max_episode_length gamma seed True)))
   \<and> length (snd (reinforce c number_episodes max_episode_length gamma seed True)) \<le> nat number_episodes
   \<and> length (snd (reinforce c number_episodes max_episode_length gamma seed False)) = nat number_episodes
   \<and> (\<forall>scores \<in> set (all_scores c number_episodes max_episode_length gamma seeds).
         length scores = nat number_episodes)"
proof -
  obtain s' scores where run:
    "reinforce c number_episodes max_episode_length gamma seed True = (s', scores)"
    by (cases "reinforce c number_episodes max_episode_length gamma seed True") auto
  show ?thesis
    using reinforce_scores [OF run] run
    by (auto simp: all_scores_def reinforce_quiet_length)
qed

theorem solved_stop_only_when_verbose_witness:
  "0 < length (snd (reinforce solved_stub 2 1000 1 0 True))
   \<and> 495 \<le> rolling_average (take (Suc 0) (snd (reinforce solved_stub 2 1000 1 0 True)))
   \<and> Suc 0 = length (snd (reinforce solved_stub 2 1000 1 0 True))
   \<and> length (snd (reinforce solved_stub 2 1000 1 0 False)) = nat 2
   \<and> [500, 500] \<in> set (all_scores solved_stub 2 1000 1 [7, 8])
   \<and> length [500, 500 :: real] = nat 2"
proof -
  have a: "all_scores solved_stub 2 1000 1 [7, 8] = [[500, 500], [500, 500]]"
    by (simp add: all_scores_def reinforce_def eval_nat_numeral solved_stub_episode Let_def
        py_sum_def deque_append_def)
  show ?thesis
    using solved_stop_only_when_verbose [of solved_stub 2 1000 1 0 "[7, 8]"]
    by (simp add: a solved_stub_verbose rolling_average_def np_mean_def)
qed

lemma episodes_loop_first_score:
  assumes "episodes_loop c learn max_episode_length verbose (Suc k) s [] [] = (s', scores)"
    and "sample_episode c max_episode_length s = (log_probs, rewards, s1)"
  shows "scores ! 0 = py_sum rewards"
proof (cases "495 \<le> np_mean (deque_append 100 [] (py_sum rewards)) \<and> verbose")
  case True
  with assms show ?thesis by (auto simp: Let_def)
next
  case False
  with assms have run:
    "episodes_loop c learn max_episode_length verbose k (learn log_probs rewards s1)
       [py_sum rewards] (deque_append 100 [] (py_sum rewards)) = (s', scores)"
    by (simp add: Let_def)
  have inv: "deque_append 100 [] (py_sum rewards)
               = drop (length [py_sum rewards] - 100) [py_sum rewards]"
    by (simp add: deque_append_def)
  from episodes_loop_scores [OF run inv] obtain ext where "scores = [py_sum rewards] @ ext"
    by blast
  then show ?thesis by simp
qed

text \<open>
  C9. With discount factor 1 the first return of a non-empty reward sequence, before
  normalization, is the sum of all rewards, \<^verbatim>\<open>sum(rewards)\<close>: the value that the
  Trainer appends to \<open>scores\<close> for the episode, shown here on the first episode of
  \<^verbatim>\<open>reinforce_baseline\<close>.
\<close>

theorem first_return_is_score:
  assumes "rewards \<noteq> []"
  shows "discounted_returns rewards 1 ! 0 = py_sum rewards
         \<and> (0 < number_episodes
              \<and> sample_episode c max_episode_length (seed_init c seed) = (log_probs, rewards, s1)
            \<longrightarrow> snd (reinforce_baseline c number_episodes max_episode_length 1 seed verbose) ! 0
                  = discounted_returns rewards 1 ! 0)"
proof -
  have "head_or_zero (discounted_returns rewards 1) = sum_list rewards"
    by (simp add: discounted_returns_rec returns_rec_head_sum)
  moreover have "discounted_returns rewards 1 \<noteq> []"
    using assms by (cases rewards) (simp_all add: discounted_returns_rec)
  ultimately have first: "discounted_returns rewards 1 ! 0 = py_sum rewards"
    by (simp add: head_or_zero_nth py_sum_sum_list)
  have "snd (reinforce_baseline c number_episodes max_episode_length 1 seed verbose) ! 0
          = py_sum rewards"
    if pos: "0 < number_episodes"
      and ep: "sample_episode c max_episode_length (seed_init c seed) = (log_probs, rewards, s1)"
  proof -
    obtain k where k: "nat number_episodes = Suc k"
      using pos by (cases "nat number_episodes") simp_all
    obtain s' scores where run:
      "reinforce_baseline c number_episodes max_episode_length 1 seed verbose = (s', scores)"
      by (cases "reinforce_baseline c number_episodes max_episode_length 1 seed verbose") auto
    from run [unfolded reinforce_baseline_def k] ep have "scores ! 0 = py_sum rewards"
      by (rule episodes_loop_first_score)
    then show ?thesis by (simp add: run)
  qed
  with first show ?thesis by simp
qed

theorem first_return_is_score_witness:
  "replicate 10 1 \<noteq> ([] :: real list)
   \<and> (0::int) < 3
   \<and> sample_episode ten_step_stub 1000 (seed_init ten_step_stub 0)
        = (replicate 10 (), replicate 10 1, 10)
   \<and> py_sum (replicate 10 1) = 10
   \<and> discounted_returns (replicate 10 1) 1 ! 0 = 10
   \<and> snd (reinforce_baseline ten_step_stub 3 1000 1 0 False) ! 0 = 10"
proof -
  have ne: "replicate 10 1 \<noteq> ([] :: real list)" by simp
  have pos: "(0::int) < 3" by simp
  have run: "sample_episode ten_step_stub 1000 (seed_init ten_step_stub 0)
               = (replicate 10 (), replicate 10 1, 10)"
    by (rule ten_step_episode)
  have s: "py_sum (replicate 10 1) = 10"
    by (simp add: py_sum_sum_list sum_list_replicate)
  note t = first_return_is_score [OF ne, of 3 ten_step_stub 1000 0 "replicate 10 ()" 10 False]
  have a: "discounted_returns (replicate 10 1) 1 ! 0 = py_sum (replicate 10 1)"
    by (rule t [THEN conjunct1])
  have b: "snd (reinforce_baseline ten_step_stub 3 1000 1 0 False) ! 0
              = discounted_returns (replicate 10 1) 1 ! 0"
    by (rule t [THEN conjunct2, THEN mp, OF conjI [OF pos run]])
  show ?thesis
    using ne pos run s a b by (simp only: simp_thms)
qed

section \<open>Properties of the smoothing function\<close>

lemma cumsum_from_length: "length (cumsum_from acc xs) = length xs"
  by (induction xs arbitrary: acc) simp_all

lemma cumsum_length: "length (cumsum a) = length a"
  by (simp add: cumsum_def cumsum_from_length)

lemma cumsum_from_nth:
  "t < length xs \<Longrightarrow> cumsum_from acc xs ! t = acc + sum_list (take (Suc t) xs)"
proof (induction xs arbitrary: acc t)
  case Nil
  then show ?case by simp
next
  case (Cons x xs)
  then show ?case by (cases t) simp_all
qed

lemma cumsum_nth: "t < length a \<Longrightarrow> cumsum a ! t = sum_list (take (Suc t) a)"
  by (simp add: cumsum_def cumsum_from_nth)

lemma slice_bound_le: "slice_bound len i \<le> len"
  by (auto simp: slice_bound_def max_def)

lemma slice_bounds_match: "n \<noteq> 0 \<Longrightarrow> slice_bound len (- n) = len - slice_bound len n"
  by (auto simp: slice_bound_def)

lemma slice_bound_window: "1 \<le> n \<Longrightarrow> n \<le> int len \<Longrightarrow> slice_bound len n = nat n"
  by (auto simp: slice_bound_def)

lemma moving_average_nonzero:
  assumes "n \<noteq> 0"
  shows "moving_average a n =
           Inr (map (\<lambda>x. x / real_of_int n)
                  (take (slice_bound (length a) n) (cumsum a)
                   @ map2 (-) (drop (slice_bound (length a) n) (cumsum a))
                              (take (length a - slice_bound (length a) n) (cumsum a))))"
  using slice_bound_le [of "length a" n]
  by (simp add: moving_average_def Let_def cumsum_length slice_bounds_match [OF assms]
      np_subtract_def set_slice_from_def)

lemma moving_average_length:
  assumes "n \<noteq> 0" and "moving_average a n = Inr out"
  shows "length out = length a"
  using assms(2) slice_bound_le [of "length a" n]
  unfolding moving_average_nonzero [OF assms(1)]
  by (auto simp: cumsum_length)

lemma moving_average_warm_up:
  assumes "n \<noteq> 0" and "moving_average a n = Inr out"
    and "t < slice_bound (length a) n"
  shows "out ! t = sum_list (take (Suc t) a) / real_of_int n"
proof -
  have t: "t < length a" using assms(3) slice_bound_le [of "length a" n] by simp
  have "out ! t = cumsum a ! t / real_of_int n"
    using assms(2,3) t unfolding moving_average_nonzero [OF assms(1)]
    by (auto simp: nth_append cumsum_length)
  then show ?thesis by (simp add: cumsum_nth [OF t])
qed

lemma moving_average_window:
  assumes "n \<noteq> 0" and "moving_average a n = Inr out"
    and "slice_bound (length a) n \<le> t" and "t < length a"
  shows "out ! t =
           (cumsum a ! t - cumsum a ! (t - slice_bound (length a) n)) / real_of_int n"
proof -
  let ?i = "slice_bound (length a) n"
  let ?c = "cumsum a"
  have out: "out = map (\<lambda>x. x / real_of_int n)
                     (take ?i ?c @ map2 (-) (drop ?i ?c) (take (length a - ?i) ?c))"
    using assms(2) unfolding moving_average_nonzero [OF assms(1)] by simp
  have i: "?i \<le> length a" by (rule slice_bound_le)
  have k: "t - ?i < length a - ?i" using assms(3,4) by arith
  have "(take ?i ?c @ map2 (-) (drop ?i ?c) (take (length a - ?i) ?c)) ! t
          = map2 (-) (drop ?i ?c) (take (length a - ?i) ?c) ! (t - ?i)"
    using assms(3) i by (simp add: nth_append cumsum_length)
  also have "\<dots> = drop ?i ?c ! (t - ?i) - take (length a - ?i) ?c ! (t - ?i)"
    using k by (simp add: cumsum_length)
  also have "\<dots> = ?c ! t - ?c ! (t - ?i)"
    using k assms(3) i by (simp add: cumsum_length)
  finally have inner: "(take ?i ?c @ map2 (-) (drop ?i ?c) (take (length a - ?i) ?c)) ! t
          = ?c ! t - ?c ! (t - ?i)" .
  have "t < length (take ?i ?c @ map2 (-) (drop ?i ?c) (take (length a - ?i) ?c))"
    using assms(4) i by (simp add: cumsum_length)
  then have "out ! t = (take ?i ?c @ map2 (-) (drop ?i ?c) (take (length a - ?i) ?c)) ! t
                         / real_of_int n"
    unfolding out by (rule nth_map)
  then show ?thesis by (simp only: inner)
qed

lemma prefix_sum_difference:
  assumes "k \<le> t" and "t < length a"
  shows "sum_list (take (Suc t) a) - sum_list (take (Suc t - k) a)
           = sum_list (take k (drop (Suc t - k) (a :: real list)))"
proof -
  have "Suc t = (Suc t - k) + k" using assms(1) by arith
  then have "take (Suc t) a = take (Suc t - k) a @ take k (drop (Suc t - k) a)"
    by (metis take_add)
  then have "sum_list (take (Suc t) a)
               = sum_list (take (Suc t - k) a) + sum_list (take k (drop (Suc t - k) a))"
    by (metis sum_list_append)
  then show ?thesis by simp
qed

text \<open>
  C6. \<^verbatim>\<open>moving_average(a, n)\<close> is a trailing moving average: for \<open>1 \<le> n \<le> len(a)\<close>
  and every index \<open>t\<close> with \<open>n - 1 \<le> t < len(a)\<close>, the entry at \<open>t\<close> is the mean of
  the \<open>n\<close> entries \<open>a[t-n+1..t]\<close> (in exact arithmetic).
\<close>

theorem moving_average_trailing_mean:
  assumes "1 \<le> n" and "n \<le> int (length a)" and "n - 1 \<le> int t" and "t < length a"
  shows "\<exists>out. moving_average a n = Inr out
           \<and> out ! t = np_mean (take (nat n) (drop (Suc t - nat n) a))"
proof -
  have nz: "n \<noteq> 0" using assms(1) by simp
  obtain out where out: "moving_average a n = Inr out"
    using moving_average_nonzero [OF nz] by blast
  have i: "slice_bound (length a) n = nat n"
    by (rule slice_bound_window [OF assms(1,2)])
  have window: "length (take (nat n) (drop (Suc t - nat n) a)) = nat n"
    using assms by simp
  have n_real: "real (nat n) = real_of_int n" using assms(1) by simp
  have "out ! t = sum_list (take (nat n) (drop (Suc t - nat n) a)) / real_of_int n"
  proof (cases "t < nat n")
    case True
    then have "Suc t = nat n" using assms(1,3) by arith
    then show ?thesis
      using moving_average_warm_up [OF nz out, of t] True by (simp add: i)
  next
    case False
    then have le: "nat n \<le> t" by simp
    have pos: "0 < nat n" using assms(1) by simp
    have "t - nat n < length a" using assms(4) by arith
    then have low: "cumsum a ! (t - nat n) = sum_list (take (Suc t - nat n) a)"
      using le by (simp add: cumsum_nth Suc_diff_le)
    have "out ! t = (cumsum a ! t - cumsum a ! (t - nat n)) / real_of_int n"
      using moving_average_window [OF nz out _ assms(4)] le by (simp add: i)
    then show ?thesis
      using prefix_sum_difference [OF le assms(4)] by (simp add: low cumsum_nth [OF assms(4)])
  qed
  then show ?thesis
    using out unfolding np_mean_def window n_real by simp
qed

lemma moving_average_example:
  "moving_average [1, 2, 3, 4] 2 = Inr [1 / 2, 3 / 2, 5 / 2, 7 / 2]"
  by (simp add: moving_average_def cumsum_def slice_bound_def np_subtract_def
      set_slice_from_def Let_def)

theorem moving_average_trailing_mean_witness:
  "(1::int) \<le> 2 \<and> (2::int) \<le> int (length [1, 2, 3, 4 :: real]) \<and> (2::int) - 1 \<le> int 2
   \<and> 2 < length [1, 2, 3, 4 :: real]
   \<and> moving_average [1, 2, 3, 4] 2 = Inr [1 / 2, 3 / 2, 5 / 2, 7 / 2]
   \<and> [1 / 2, 3 / 2, 5 / 2, 7 / 2] ! 2 = np_mean (take (nat 2) (drop (Suc 2 - nat 2) [1, 2, 3, 4]))"
proof -
  have h: "(1::int) \<le> 2" "(2::int) \<le> int (length [1, 2, 3, 4 :: real])" "(2::int) - 1 \<le> int 2"
    "2 < length [1, 2, 3, 4 :: real]"
    by simp_all
  show ?thesis
    using moving_average_trailing_mean [OF h] h
    by (simp add: moving_average_example)
qed

text \<open>
  C10. For every window \<open>n \<ge> 1\<close> and every \<open>a\<close> with \<open>len(a) \<ge> n\<close>,
  \<^verbatim>\<open>moving_average(a, n)\<close> returns a sequence as long as \<open>a\<close>, and its warm-up entry
  at each index \<open>t < n - 1\<close> is the prefix sum \<open>a[0] + ... + a[t]\<close> divided by the
  full window size \<open>n\<close>, not by the \<open>t + 1\<close> entries available so far.
\<close>

theorem moving_average_length_warm_up:
  assumes "1 \<le> n" and "n \<le> int (length a)"
  shows "\<exists>out. moving_average a n = Inr out \<and> length out = length a
           \<and> (\<forall>t. int t < n - 1 \<longrightarrow> out ! t = sum_list (take (Suc t) a) / real_of_int n)"
proof -
  have nz: "n \<noteq> 0" using assms(1) by simp
  obtain out where out: "moving_average a n = Inr out"
    using moving_average_nonzero [OF nz] by blast
  have i: "slice_bound (length a) n = nat n"
    by (rule slice_bound_window [OF assms])
  have "out ! t = sum_list (take (Suc t) a) / real_of_int n" if t: "int t < n - 1" for t
  proof -
    have "t < nat n" using t by simp
    then show ?thesis
      using moving_average_warm_up [OF nz out, of t] by (simp add: i)
  qed
  then show ?thesis
    using out moving_average_length [OF nz out] by simp
qed

theorem moving_average_length_warm_up_witness:
  "(1::int) \<le> 3 \<and> (3::int) \<le> int (length [1, 2, 3, 4 :: real])
   \<and> moving_average [1, 2, 3, 4] 3 = Inr [1 / 3, 1, 2, 3]
   \<and> length [1 / 3, 1, 2, 3 :: real] = length [1, 2, 3, 4 :: real]
   \<and> int 1 < 3 - 1
   \<and> [1 / 3, 1, 2, 3] ! 1 = sum_list (take (Suc 1) [1, 2, 3, 4]) / real_of_int 3"
proof -
  have h: "(1::int) \<le> 3" "(3::int) \<le> int (length [1, 2, 3, 4 :: real])"
    by simp_all
  have ev: "moving_average [1, 2, 3, 4] 3 = Inr [1 / 3, 1, 2, 3]"
    by (simp add: moving_average_def cumsum_def slice_bound_def np_subtract_def
        set_slice_from_def Let_def)
  show ?thesis
    using moving_average_length_warm_up [OF h] h
    by (simp add: ev)
qed

end
